theory Spec2Isabelle
  imports Main "HOL-Library.Word"
begin

unbundle bit_operations_syntax

section \<open>The Pageant shared-memory connection (pageant.go)\<close>

text \<open>
  The connection object of \<^verbatim>\<open>pageant.go\<close> is embedded as a record, and each of its
  methods as a function from the state before the call to an outcome. A Go call either
  returns, blocks for ever on a channel operation, or panics; the three are the
  constructors of \<open>outcome\<close>. Everything the operating system and the agent decide (the
  reply to \<^verbatim>\<open>SendMessageW\<close>, what the agent leaves in the shared mapping, the
  results of \<^verbatim>\<open>UnmapViewOfFile\<close> and \<^verbatim>\<open>CloseHandle\<close>) is a parameter of the
  function that makes the call. The model is sequential: one call runs to completion
  before the next starts, so the embedded mutex is always free on entry and is left out.
\<close>

subsection \<open>Constants\<close>

type_synonym byte = "8 word"
type_synonym bytes = "byte list"

definition agentCopydataID :: "32 word" where
  "agentCopydataID = 0x804e50ba"

definition agentMaxMsglen :: nat where
  "agentMaxMsglen = 8192"

text \<open>\<^verbatim>\<open>syscall.Errno(0)\<close>: the value of \<^verbatim>\<open>GetLastError\<close> that means no error.\<close>

definition noError :: nat where
  "noError = 0"

definition wmCopyData :: nat where
  "wmCopyData = 0x004a"

text \<open>\<^verbatim>\<open>windows.InvalidHandle\<close> is \<^verbatim>\<open>^Handle(0)\<close>, all ones in a 64-bit uintptr.\<close>

definition InvalidHandle :: nat where
  "InvalidHandle = 2 ^ 64 - 1"

subsection \<open>Errors, panics and outcomes\<close>

text \<open>
  One constructor for each \<^verbatim>\<open>fmt.Errorf\<close> of the file, with the values its message
  formats, \<open>EOF\<close> for \<^verbatim>\<open>io.EOF\<close>, and \<open>Errno\<close> for an operating-system error handed
  back unwrapped (as \<^verbatim>\<open>Close\<close> does).
\<close>

datatype error =
    ErrRequestTooLarge nat nat
  | ErrEmptyMessage
  | ErrNotConnected
  | ErrSendFailed nat
  | ErrRequestRefused
  | ErrResponseTooLarge "32 word" nat
  | EOF
  | Errno nat
  | ErrWindowNotFoundCause nat
  | ErrWindowNotFound
  | ErrPageantNotAvailable
  | ErrCreateSharedFile nat
  | ErrMapSharedMemory nat
  | ErrConnectFailed error

datatype panic = SendOnClosedChannel | CloseOfClosedChannel

datatype 'a outcome = Returns 'a | Blocks | Panics panic

subsection \<open>The buffered channel \<^verbatim>\<open>chan []byte\<close>\<close>

text \<open>
  A Go channel made with \<^verbatim>\<open>make(chan []byte, 10)\<close>: a queue of at most \<open>cap\<close>
  elements and a closed flag. A send on a closed channel panics, a send on a full one
  blocks; a receive takes the oldest element if there is one (also after the close),
  yields the zero value with \<^verbatim>\<open>ok == false\<close> on a closed and empty channel, and blocks
  on an open and empty one; closing a closed channel panics.
\<close>

record chan =
  items :: "bytes list"
  cap :: nat
  closed :: bool

definition make_chan :: "nat \<Rightarrow> chan" where
  "make_chan n = \<lparr>items = [], cap = n, closed = False\<rparr>"

definition chan_send :: "chan \<Rightarrow> bytes \<Rightarrow> chan outcome" where
  "chan_send ch v =
     (if closed ch then Panics SendOnClosedChannel
      else if length (items ch) < cap ch then Returns (ch\<lparr>items := items ch @ [v]\<rparr>)
      else Blocks)"

text \<open>The result of a receive: the value, the \<^verbatim>\<open>ok\<close> flag and the channel after it.\<close>

definition chan_recv :: "chan \<Rightarrow> (bytes \<times> bool \<times> chan) outcome" where
  "chan_recv ch =
     (case items ch of
        v # rest \<Rightarrow> Returns (v, True, ch\<lparr>items := rest\<rparr>)
      | [] \<Rightarrow> if closed ch then Returns ([], False, ch) else Blocks)"

definition chan_close :: "chan \<Rightarrow> chan outcome" where
  "chan_close ch =
     (if closed ch then Panics CloseOfClosedChannel else Returns (ch\<lparr>closed := True\<rparr>))"

subsection \<open>Memory and slices\<close>

text \<open>
  The process's memory is a store from addresses to bytes. \<^verbatim>\<open>toSlice(addr, size)\<close>
  builds a slice header over the \<open>size\<close> bytes at \<open>addr\<close>: reading the slice reads the
  store there (\<open>toSlice\<close>), and \<^verbatim>\<open>copy(toSlice(addr, len(p)), p)\<close> writes \<open>p\<close> there
  (\<open>copy_to\<close>).
\<close>

type_synonym memory = "nat \<Rightarrow> byte"

definition toSlice :: "memory \<Rightarrow> nat \<Rightarrow> nat \<Rightarrow> bytes" where
  "toSlice mem addr sz = map mem [addr ..< addr + sz]"

definition copy_to :: "memory \<Rightarrow> nat \<Rightarrow> bytes \<Rightarrow> memory" where
  "copy_to mem addr p =
     (\<lambda>a. if addr \<le> a \<and> a < addr + length p then p ! (a - addr) else mem a)"

text \<open>
  Go's builtin \<^verbatim>\<open>copy(dst, src)\<close> on two slices of the heap: it copies
  \<open>min (len dst) (len src)\<close> bytes and returns that count.
\<close>

definition copy_slice :: "bytes \<Rightarrow> bytes \<Rightarrow> nat \<times> bytes" where
  "copy_slice dst src =
     (let n = min (length dst) (length src) in (n, take n src @ drop n dst))"

text \<open>
  \<^verbatim>\<open>binary.BigEndian.Uint32(b)\<close>:
  \<^verbatim>\<open>uint32(b[3]) | uint32(b[2])<<8 | uint32(b[1])<<16 | uint32(b[0])<<24\<close>.
  The source only calls it on a slice of length 4.
\<close>

definition BigEndian_Uint32 :: "bytes \<Rightarrow> 32 word" where
  "BigEndian_Uint32 b =
     ucast (b ! 3) OR push_bit 8 (ucast (b ! 2)) OR push_bit 16 (ucast (b ! 1))
       OR push_bit 24 (ucast (b ! 0))"

subsection \<open>The connection\<close>

record conn =
  window :: nat
  sharedFile :: nat
  sharedMem :: nat
  mapName :: string
  data :: chan
  buf :: bytes
  eof :: bool

text \<open>\<^verbatim>\<open>&Conn{data: make(chan []byte, 10)}\<close>: every other field has its zero value.\<close>

definition new_Conn :: conn where
  "new_Conn = \<lparr>window = 0, sharedFile = 0, sharedMem = 0, mapName = [],
     data = make_chan 10, buf = [], eof = False\<rparr>"

subsection \<open>Close\<close>

text \<open>
  \<open>unmapViewOfFile\<close> and \<open>closeHandle\<close> stand for the two system calls: given the
  address or the handle they answer \<open>None\<close> (nil) or \<open>Some\<close> error number.
\<close>

definition Close ::
  "(nat \<Rightarrow> nat option) \<Rightarrow> (nat \<Rightarrow> nat option) \<Rightarrow> conn \<Rightarrow> (error option \<times> conn) outcome"
where
  "Close unmapViewOfFile closeHandle c =
     (if sharedMem c = 0 then Returns (None, c)
      else
        (case chan_close (data c) of
           Panics e \<Rightarrow> Panics e
         | Blocks \<Rightarrow> Blocks
         | Returns ch \<Rightarrow>
             (let c1 = c\<lparr>data := ch\<rparr>;
                  errUnmap = unmapViewOfFile (sharedMem c1);
                  errClose = closeHandle (sharedFile c1)
              in case errUnmap of
                   Some e \<Rightarrow> Returns (Some (Errno e), c1)
                 | None \<Rightarrow>
                     (case errClose of
                        Some e \<Rightarrow> Returns (Some (Errno e), c1)
                      | None \<Rightarrow>
                          Returns (None, c1\<lparr>sharedMem := 0, sharedFile := InvalidHandle\<rparr>)))))"

subsection \<open>Read\<close>

text \<open>
  \<open>Read c p\<close> is the call \<^verbatim>\<open>c.Read(p)\<close> on the caller's buffer \<open>p\<close>; it returns
  \<open>(n, err, p', c')\<close>: the count, the error, the caller's buffer and the connection
  after the call.
\<close>

definition Read :: "conn \<Rightarrow> bytes \<Rightarrow> (nat \<times> error option \<times> bytes \<times> conn) outcome" where
  "Read c p =
     (if eof c then Returns (0, Some EOF, p, c)
      else if sharedMem c = 0 then Returns (0, Some ErrNotConnected, p, c)
      else
        (case (if length (buf c) = 0
               then (case chan_recv (data c) of
                       Returns (v, ok, ch) \<Rightarrow> Returns (c\<lparr>buf := v, data := ch\<rparr>, ok)
                     | Blocks \<Rightarrow> Blocks
                     | Panics e \<Rightarrow> Panics e)
               else Returns (c, True)) of
           Blocks \<Rightarrow> Blocks
         | Panics e \<Rightarrow> Panics e
         | Returns (c1, ok) \<Rightarrow>
             if \<not> ok then Returns (0, Some EOF, p, c1\<lparr>eof := True\<rparr>)
             else
               (let (n, p') = copy_slice p (buf c1)
                in Returns (n, None, p', c1\<lparr>buf := drop n (buf c1)\<rparr>))))"

subsection \<open>sendMessage and Write\<close>

text \<open>\<^verbatim>\<open>COPYDATASTRUCT\<close>; the pointer \<open>lpData\<close> is modelled by the bytes it points to.\<close>

record copyData =
  dwData :: "32 word"
  cbData :: nat
  lpData :: bytes

text \<open>
  \<^verbatim>\<open>user32.SendMessageW\<close>, called through \<^verbatim>\<open>LazyProc.Call\<close>: from the window, the
  message, the two parameters and the memory it yields the result, the last error number
  (an \<^verbatim>\<open>Errno\<close>, never nil) and the memory as the agent leaves it.
\<close>

type_synonym send_message_proc =
  "nat \<Rightarrow> nat \<Rightarrow> nat \<Rightarrow> copyData \<Rightarrow> memory \<Rightarrow> nat \<times> nat \<times> memory"

definition sendMessage ::
  "send_message_proc \<Rightarrow> conn \<Rightarrow> bytes \<Rightarrow> memory \<Rightarrow> nat \<times> nat option \<times> memory"
where
  "sendMessage call c dat mem =
     (let cds = \<lparr>dwData = agentCopydataID, cbData = length dat, lpData = dat\<rparr>;
          (result, err, mem') = call (window c) wmCopyData 0 cds mem
      in if err = noError then (result, None, mem') else (result, Some err, mem'))"

text \<open>
  The payload of the notification:
  \<^verbatim>\<open>data := make([]byte, len(c.mapName)+1); copy(data, c.mapName)\<close>, the name followed
  by a zero byte.
\<close>

definition name_payload :: "string \<Rightarrow> bytes" where
  "name_payload name = map of_char name @ [0]"

text \<open>
  \<open>Write call c mem p\<close> is \<^verbatim>\<open>c.Write(p)\<close> in memory \<open>mem\<close>; it returns
  \<open>(n, err, c', mem')\<close>.
\<close>

definition Write ::
  "send_message_proc \<Rightarrow> conn \<Rightarrow> memory \<Rightarrow> bytes \<Rightarrow> (nat \<times> error option \<times> conn \<times> memory) outcome"
where
  "Write call c mem p =
     (if length p > agentMaxMsglen
      then Returns (0, Some (ErrRequestTooLarge (length p) agentMaxMsglen), c, mem)
      else if length p = 0 then Returns (0, Some ErrEmptyMessage, c, mem)
      else if sharedMem c = 0 then Returns (0, Some ErrNotConnected, c, mem)
      else
        (let mem1 = copy_to mem (sharedMem c) p;
             (result, err, mem2) = sendMessage call c (name_payload (mapName c)) mem1
         in if result = 0
            then (case err of
                    Some e \<Rightarrow> Returns (0, Some (ErrSendFailed e), c, mem2)
                  | None \<Rightarrow> Returns (0, Some ErrRequestRefused, c, mem2))
            else
              (let messageSize = BigEndian_Uint32 (toSlice mem2 (sharedMem c) 4)
               in if messageSize > of_nat agentMaxMsglen - 4
                  then Returns (0, Some (ErrResponseTooLarge (messageSize + 4) agentMaxMsglen),
                                c, mem2)
                  else
                    (case chan_send (data c)
                            (toSlice mem2 (sharedMem c) (4 + unat messageSize)) of
                       Panics e \<Rightarrow> Panics e
                     | Blocks \<Rightarrow> Blocks
                     | Returns ch \<Rightarrow> Returns (length p, None, c\<lparr>data := ch\<rparr>, mem2)))))"

subsection \<open>Sequences of calls\<close>

text \<open>
  A caller that issues several calls one after the other. \<open>Writes\<close> runs the requests
  in order, each with the reply the agent gives to it, and keeps for each call the count,
  the error and the memory it left; \<open>Reads\<close> runs \<^verbatim>\<open>Read\<close> on each caller buffer in
  order and keeps the count, the error and the buffer. A call that blocks or panics is
  the last one.
\<close>

fun Writes ::
  "conn \<Rightarrow> memory \<Rightarrow> (send_message_proc \<times> bytes) list
     \<Rightarrow> ((nat \<times> error option \<times> memory) list \<times> conn \<times> memory) outcome"
where
  "Writes c mem [] = Returns ([], c, mem)"
| "Writes c mem ((call, p) # ws) =
     (case Write call c mem p of
        Panics e \<Rightarrow> Panics e
      | Blocks \<Rightarrow> Blocks
      | Returns (n, err, c', mem') \<Rightarrow>
          (case Writes c' mem' ws of
             Panics e \<Rightarrow> Panics e
           | Blocks \<Rightarrow> Blocks
           | Returns (rs, c'', mem'') \<Rightarrow> Returns ((n, err, mem') # rs, c'', mem'')))"

fun Reads :: "conn \<Rightarrow> bytes list \<Rightarrow> (nat \<times> error option \<times> bytes) outcome list" where
  "Reads c [] = []"
| "Reads c (p # ps) =
     (case Read c p of
        Panics e \<Rightarrow> [Panics e]
      | Blocks \<Rightarrow> [Blocks]
      | Returns (n, err, p', c') \<Rightarrow> Returns (n, err, p') # Reads c' ps)"

text \<open>The bytes a list of reads delivered: the first \<open>n\<close> bytes of each buffer.\<close>

fun delivered :: "(nat \<times> error option \<times> bytes) outcome list \<Rightarrow> bytes" where
  "delivered [] = []"
| "delivered (Returns (n, err, p') # rs) = take n p' @ delivered rs"
| "delivered (r # rs) = delivered rs"

subsection \<open>The wire format and the stream, in the specification's words\<close>

text \<open>
  The response in the region at \<open>addr\<close>: bytes \<open>[0, 4)\<close> are the big-endian length
  \<open>L\<close> of the payload, bytes \<open>[4, 4 + L)\<close> the payload.
\<close>

definition response_length :: "memory \<Rightarrow> nat \<Rightarrow> nat" where
  "response_length mem addr = unat (BigEndian_Uint32 (toSlice mem addr 4))"

definition response_chunk :: "memory \<Rightarrow> nat \<Rightarrow> bytes" where
  "response_chunk mem addr =
     toSlice mem addr 4 @ toSlice mem (addr + 4) (response_length mem addr)"

text \<open>
  What sequential reads of a queue of chunks return, chunk by chunk: each read takes as
  much of the chunk at the head as fits into the caller's buffer, the rest of that chunk
  stays at the head for the next read, and a read of an empty queue waits.
\<close>

fun spec_reads :: "bytes list \<Rightarrow> bytes list \<Rightarrow> (nat \<times> error option \<times> bytes) outcome list"
where
  "spec_reads chunks [] = []"
| "spec_reads [] (p # ps) = [Blocks]"
| "spec_reads (ch # chunks) (p # ps) =
     (let n = min (length p) (length ch)
      in Returns (n, None, take n ch @ drop n p)
           # spec_reads (if n < length ch then drop n ch # chunks else chunks) ps)"

text \<open>The chunks a connection still holds, the one being drained first.\<close>

definition pending :: "conn \<Rightarrow> bytes list" where
  "pending c = (if buf c = [] then items (data c) else buf c # items (data c))"

subsection \<open>Connecting: the window, the region name, the mapping\<close>

text \<open>
  \<^verbatim>\<open>PageantWindow\<close>, from the result and the last error of \<^verbatim>\<open>FindWindowW\<close>.
\<close>

definition PageantWindow :: "nat \<times> nat \<Rightarrow> error + nat" where
  "PageantWindow fw =
     (let (window, err) = fw
      in if window = 0
         then (if err \<noteq> noError then Inl (ErrWindowNotFoundCause err)
               else Inl ErrWindowNotFound)
         else Inr window)"

definition PageantAvailable :: "nat \<times> nat \<Rightarrow> bool" where
  "PageantAvailable fw = (case PageantWindow fw of Inr w \<Rightarrow> True | Inl e \<Rightarrow> False)"

text \<open>The verb \<^verbatim>\<open>%x\<close> of \<^verbatim>\<open>fmt.Sprintf\<close>: lower-case hexadecimal, no leading zeros.\<close>

definition hexdigit :: "nat \<Rightarrow> char" where
  "hexdigit d = ''0123456789abcdef'' ! d"

fun fmt_x :: "nat \<Rightarrow> string" where
  "fmt_x n = (if n < 16 then [hexdigit n] else fmt_x (n div 16) @ [hexdigit (n mod 16)])"

declare fmt_x.simps [simp del]

definition fmt_x_int :: "int \<Rightarrow> string" where
  "fmt_x_int i = (if i < 0 then ''-'' @ fmt_x (nat (- i)) else fmt_x (nat i))"

text \<open>
  \<^verbatim>\<open>fmt.Sprintf("PageantRequest_%x_%x", os.Getpid(), connUniqueID.Add(1))\<close>, from the
  process id and the value the counter returned.
\<close>

definition region_name :: "int \<Rightarrow> 64 word \<Rightarrow> string" where
  "region_name pid uid = ''PageantRequest_'' @ fmt_x_int pid @ ''_'' @ fmt_x (unat uid)"

text \<open>
  The system calls of one connection attempt: the answer of \<^verbatim>\<open>FindWindowW\<close>, and
  \<^verbatim>\<open>CreateFileMapping\<close> and \<^verbatim>\<open>MapViewOfFile\<close>, which answer an error number
  (\<open>Inl\<close>) or the handle and the address (\<open>Inr\<close>).
\<close>

record syscalls =
  findWindow :: "nat \<times> nat"
  createFileMapping :: "string \<Rightarrow> nat \<Rightarrow> nat + nat"
  mapViewOfFile :: "nat \<Rightarrow> nat + nat"

text \<open>
  \<open>establishConn pid os uid c\<close>: \<open>uid\<close> is the value of the process-wide counter
  \<^verbatim>\<open>connUniqueID\<close> (an \<^verbatim>\<open>atomic.Uint64\<close>) before the call; the result is the error,
  the connection and the counter after the call. \<^verbatim>\<open>Add(1)\<close> wraps around at
  \<open>2 ^ 64\<close>, as addition on \<open>64 word\<close> does.
\<close>

definition establishConn ::
  "int \<Rightarrow> syscalls \<Rightarrow> 64 word \<Rightarrow> conn \<Rightarrow> error option \<times> conn \<times> 64 word"
where
  "establishConn pid os uid c =
     (case PageantWindow (findWindow os) of
        Inl e \<Rightarrow> (Some e, c, uid)
      | Inr w \<Rightarrow>
          (let uid' = uid + 1;
               name = region_name pid uid'
           in case createFileMapping os name agentMaxMsglen of
                Inl e \<Rightarrow> (Some (ErrCreateSharedFile e), c, uid')
              | Inr file \<Rightarrow>
                  (case mapViewOfFile os file of
                     Inl e \<Rightarrow> (Some (ErrMapSharedMemory e), c, uid')
                   | Inr addr \<Rightarrow>
                       (None,
                        c\<lparr>window := w, sharedFile := file, sharedMem := addr, mapName := name\<rparr>,
                        uid'))))"

text \<open>
  \<^verbatim>\<open>NewPageantConn\<close>; \<open>probe\<close> is the answer of \<^verbatim>\<open>FindWindowW\<close> to the call that
  \<^verbatim>\<open>PageantAvailable\<close> makes, before the one of \<^verbatim>\<open>establishConn\<close>.
\<close>

definition NewPageantConn ::
  "int \<Rightarrow> nat \<times> nat \<Rightarrow> syscalls \<Rightarrow> 64 word \<Rightarrow> (error + conn) \<times> 64 word"
where
  "NewPageantConn pid probe os uid =
     (if \<not> PageantAvailable probe then (Inl ErrPageantNotAvailable, uid)
      else
        (case establishConn pid os uid new_Conn of
           (Some e, c, uid') \<Rightarrow> (Inl (ErrConnectFailed e), uid')
         | (None, c, uid') \<Rightarrow> (Inr c, uid')))"

text \<open>The connections one process makes, one after the other, from the counter \<open>uid\<close>.\<close>

fun connect_all ::
  "int \<Rightarrow> 64 word \<Rightarrow> ((nat \<times> nat) \<times> syscalls) list \<Rightarrow> (error + conn) list"
where
  "connect_all pid uid [] = []"
| "connect_all pid uid ((probe, os) # rest) =
     (let (r, uid') = NewPageantConn pid probe os uid in r # connect_all pid uid' rest)"

text \<open>The region names of the connections that were made.\<close>

fun names_of :: "(error + conn) list \<Rightarrow> string list" where
  "names_of [] = []"
| "names_of (Inr c # rs) = mapName c # names_of rs"
| "names_of (Inl e # rs) = names_of rs"

subsection \<open>A concrete scenario\<close>

text \<open>
  A connected connection with its region at address \<open>0x10000\<close>, a memory of zeros, the
  request \<^verbatim>\<open>ping\<close>, the responses \<^verbatim>\<open>pong\<close> and \<^verbatim>\<open>pang\<close> with their length
  prefixes, an agent that answers a result and a last error and leaves a response in
  the region, and system calls that succeed or fail with an error number.
\<close>

definition conn0 :: conn where
  "conn0 = \<lparr>window = 0x2a01, sharedFile = 0x1f4, sharedMem = 0x10000,
     mapName = ''PageantRequest_1a2b_1'', data = make_chan 10, buf = [], eof = False\<rparr>"

definition mem0 :: memory where
  "mem0 = (\<lambda>a. 0)"

definition ping :: bytes where
  "ping = [0x70, 0x69, 0x6e, 0x67]"

definition pong :: bytes where
  "pong = [0, 0, 0, 4, 0x70, 0x6f, 0x6e, 0x67]"

definition pang :: bytes where
  "pang = [0, 0, 0, 4, 0x70, 0x61, 0x6e, 0x67]"

definition agent_answers :: "nat \<Rightarrow> nat \<Rightarrow> bytes \<Rightarrow> send_message_proc" where
  "agent_answers result err resp = (\<lambda>hwnd msg wparam cds mem. (result, err, copy_to mem 0x10000 resp))"

definition sys_ok :: "nat \<Rightarrow> nat option" where
  "sys_ok = (\<lambda>x. None)"

definition sys_fails :: "nat \<Rightarrow> nat \<Rightarrow> nat option" where
  "sys_fails e = (\<lambda>x. Some e)"

definition os_ok :: "nat \<Rightarrow> syscalls" where
  "os_ok addr = \<lparr>findWindow = (0x2a01, 0), createFileMapping = (\<lambda>name sz. Inr 0x1f4),
     mapViewOfFile = (\<lambda>h. Inr addr)\<rparr>"

text \<open>A response whose prefix declares 8189 bytes, one more than fits after the prefix.\<close>

definition oversize :: bytes where
  "oversize = [0, 0, 0x1f, 0xfd]"

text \<open>The connection and the memory after the request has been answered with \<^verbatim>\<open>pong\<close>.\<close>

definition conn_pong :: conn where
  "conn_pong = conn0\<lparr>data := (make_chan 10)\<lparr>items := [pong]\<rparr>\<rparr>"

definition mem_pong :: memory where
  "mem_pong = copy_to (copy_to mem0 0x10000 ping) 0x10000 pong"

text \<open>And after a second request has been answered with \<^verbatim>\<open>pang\<close>.\<close>

definition conn_pang :: conn where
  "conn_pang = conn0\<lparr>data := (make_chan 10)\<lparr>items := [pong, pang]\<rparr>\<rparr>"

definition mem_pang :: memory where
  "mem_pang = copy_to (copy_to mem_pong 0x10000 ping) 0x10000 pang"

text \<open>
  The connection after a \<^verbatim>\<open>Close\<close> that released everything, and after a
  \<^verbatim>\<open>Close\<close> in which a system call failed: the channel is closed, the region is
  still recorded as mapped.
\<close>

definition closed0 :: conn where
  "closed0 = conn0\<lparr>data := (make_chan 10)\<lparr>closed := True\<rparr>, sharedMem := 0,
     sharedFile := InvalidHandle\<rparr>"

definition half_closed0 :: conn where
  "half_closed0 = conn0\<lparr>data := (make_chan 10)\<lparr>closed := True\<rparr>\<rparr>"

text \<open>The connection closed, with everything released, while \<^verbatim>\<open>pong\<close> was still unread.\<close>

definition closed_pong :: conn where
  "closed_pong = conn_pong\<lparr>data := (data conn_pong)\<lparr>closed := True\<rparr>, sharedMem := 0,
     sharedFile := InvalidHandle\<rparr>"

text \<open>System calls in which the window is found and the mapping cannot be created.\<close>

definition os_no_mapping :: syscalls where
  "os_no_mapping = \<lparr>findWindow = (0x2a01, 0), createFileMapping = (\<lambda>name sz. Inl 8),
     mapViewOfFile = (\<lambda>h. Inr 0x10000)\<rparr>"

section \<open>Properties\<close>

subsection \<open>Evaluating the model\<close>

lemma conn0_simps:
  "sharedMem conn0 = 0x10000" "window conn0 = 0x2a01" "sharedFile conn0 = 0x1f4"
  "buf conn0 = []" "eof conn0 = False" "data conn0 = make_chan 10"
  "mapName conn0 = ''PageantRequest_1a2b_1''"
  by (simp_all add: conn0_def)

lemma sendMessage_agent_answers:
  "sendMessage (agent_answers result err resp) c dat mem
     = (result, if err = 0 then None else Some err, copy_to mem 0x10000 resp)"
  by (simp add: sendMessage_def agent_answers_def noError_def)

lemma toSlice_4: "toSlice mem a 4 = [mem a, mem (a + 1), mem (a + 2), mem (a + 3)]"
proof -
  have "[a ..< a + 4] = [a, a + 1, a + 2, a + 3]"
    by (simp add: upt_rec [of a] upt_rec [of "Suc a"] upt_rec [of "Suc (Suc a)"]
        upt_rec [of "Suc (Suc (Suc a))"])
  then show ?thesis by (simp add: toSlice_def)
qed

lemma BigEndian_pong: "BigEndian_Uint32 (toSlice (copy_to m 0x10000 pong) 0x10000 4) = 4"
  by (simp add: toSlice_4 copy_to_def pong_def BigEndian_Uint32_def)

lemma BigEndian_pang: "BigEndian_Uint32 (toSlice (copy_to m 0x10000 pang) 0x10000 4) = 4"
  by (simp add: toSlice_4 copy_to_def pang_def BigEndian_Uint32_def)

lemma BigEndian_oversize:
  "BigEndian_Uint32 (toSlice (copy_to m 0x10000 oversize) 0x10000 4) = 8189"
  by (simp add: toSlice_4 copy_to_def oversize_def BigEndian_Uint32_def)

subsection \<open>Slices of the memory\<close>

lemma length_toSlice [simp]: "length (toSlice m a n) = n"
  by (simp add: toSlice_def)

lemma toSlice_add: "toSlice m a (k + n) = toSlice m a k @ toSlice m (a + k) n"
proof -
  have "[a ..< a + (k + n)] = [a ..< a + k] @ [a + k ..< a + k + n]"
    using upt_add_eq_append [of a "a + k" n] by (simp only: add.assoc le_add1)
  then show ?thesis by (simp add: toSlice_def)
qed

lemma toSlice_copy_to: "toSlice (copy_to m a xs) a (length xs) = xs"
  by (rule nth_equalityI) (simp_all add: toSlice_def copy_to_def)

lemma response_chunk_eq:
  "toSlice m a (4 + unat (BigEndian_Uint32 (toSlice m a 4))) = response_chunk m a"
  by (simp add: toSlice_add response_chunk_def response_length_def)

lemma length_response_chunk: "length (response_chunk m a) = 4 + response_length m a"
  by (simp add: response_chunk_def)

lemma take_4_response_chunk: "take 4 (response_chunk m a) = toSlice m a 4"
  by (simp add: response_chunk_def)

lemma response_fits:
  "(BigEndian_Uint32 (toSlice m a 4) > of_nat agentMaxMsglen - 4)
     = (agentMaxMsglen - 4 < response_length m a)"
  by (simp add: response_length_def agentMaxMsglen_def word_less_nat_alt)

lemma response_chunk_pong: "response_chunk (copy_to m 0x10000 pong) 0x10000 = pong"
proof -
  have "response_chunk (copy_to m 0x10000 pong) 0x10000
      = toSlice (copy_to m 0x10000 pong) 0x10000 (length pong)"
  proof -
    have l: "length pong = 8" by (simp add: pong_def)
    show ?thesis unfolding response_chunk_eq [symmetric] BigEndian_pong l by simp
  qed
  then show ?thesis by (simp only: toSlice_copy_to)
qed

lemma response_chunk_pang: "response_chunk (copy_to m 0x10000 pang) 0x10000 = pang"
proof -
  have "response_chunk (copy_to m 0x10000 pang) 0x10000
      = toSlice (copy_to m 0x10000 pang) 0x10000 (length pang)"
  proof -
    have l: "length pang = 8" by (simp add: pang_def)
    show ?thesis unfolding response_chunk_eq [symmetric] BigEndian_pang l by simp
  qed
  then show ?thesis by (simp only: toSlice_copy_to)
qed

lemma response_length_pong: "response_length (copy_to m 0x10000 pong) 0x10000 = 4"
  by (simp add: response_length_def BigEndian_pong)

lemma response_length_pang: "response_length (copy_to m 0x10000 pang) 0x10000 = 4"
  by (simp add: response_length_def BigEndian_pang)

subsection \<open>The branches of Write\<close>

lemma Write_too_large:
  "agentMaxMsglen < length p \<Longrightarrow>
   Write call c mem p = Returns (0, Some (ErrRequestTooLarge (length p) agentMaxMsglen), c, mem)"
  by (simp add: Write_def)

lemma Write_empty: "Write call c mem [] = Returns (0, Some ErrEmptyMessage, c, mem)"
  by (simp add: Write_def agentMaxMsglen_def)

lemma Write_not_connected:
  "0 < length p \<Longrightarrow> length p \<le> agentMaxMsglen \<Longrightarrow> sharedMem c = 0 \<Longrightarrow>
   Write call c mem p = Returns (0, Some ErrNotConnected, c, mem)"
  by (simp add: Write_def)

lemma Write_notified:
  assumes "0 < length p" "length p \<le> agentMaxMsglen" "sharedMem c \<noteq> 0"
    and "sendMessage call c (name_payload (mapName c)) (copy_to mem (sharedMem c) p)
           = (result, err, mem2)"
  shows "Write call c mem p =
     (if result = 0
      then (case err of
              Some e \<Rightarrow> Returns (0, Some (ErrSendFailed e), c, mem2)
            | None \<Rightarrow> Returns (0, Some ErrRequestRefused, c, mem2))
      else if BigEndian_Uint32 (toSlice mem2 (sharedMem c) 4) > of_nat agentMaxMsglen - 4
      then Returns (0, Some (ErrResponseTooLarge
                       (BigEndian_Uint32 (toSlice mem2 (sharedMem c) 4) + 4) agentMaxMsglen), c, mem2)
      else (case chan_send (data c)
                   (toSlice mem2 (sharedMem c)
                      (4 + unat (BigEndian_Uint32 (toSlice mem2 (sharedMem c) 4)))) of
              Panics e \<Rightarrow> Panics e
            | Blocks \<Rightarrow> Blocks
            | Returns ch \<Rightarrow> Returns (length p, None, c\<lparr>data := ch\<rparr>, mem2)))"
  using assms by (simp add: Write_def Let_def)

text \<open>
  A write of a valid size returns without an error exactly when the connection is
  connected, the agent answers a nonzero result, the declared length fits, and the
  channel is open and has room; it then returns the length of the request and has
  appended one chunk to the queue.
\<close>

lemma Write_success_iff:
  assumes "0 < length p" "length p \<le> agentMaxMsglen"
  shows "(Write call c mem p = Returns (n, None, c', mem')) =
    (sharedMem c \<noteq> 0 \<and>
     fst (sendMessage call c (name_payload (mapName c)) (copy_to mem (sharedMem c) p)) \<noteq> 0 \<and>
     snd (snd (sendMessage call c (name_payload (mapName c)) (copy_to mem (sharedMem c) p)))
       = mem' \<and>
     response_length mem' (sharedMem c) \<le> agentMaxMsglen - 4 \<and>
     \<not> closed (data c) \<and> length (items (data c)) < cap (data c) \<and>
     n = length p \<and>
     c' = c\<lparr>data := (data c)\<lparr>items := items (data c) @ [response_chunk mem' (sharedMem c)]\<rparr>\<rparr>)"
proof (cases "sharedMem c = 0")
  case True
  with assms show ?thesis by (simp add: Write_not_connected)
next
  case False
  obtain result err mem2 where
    s: "sendMessage call c (name_payload (mapName c)) (copy_to mem (sharedMem c) p)
          = (result, err, mem2)"
    by (cases "sendMessage call c (name_payload (mapName c)) (copy_to mem (sharedMem c) p)")
  let ?L = "response_length mem2 (sharedMem c)"
  have w: "Write call c mem p =
     (if result = 0
      then (case err of
              Some e \<Rightarrow> Returns (0, Some (ErrSendFailed e), c, mem2)
            | None \<Rightarrow> Returns (0, Some ErrRequestRefused, c, mem2))
      else if agentMaxMsglen - 4 < ?L
      then Returns (0, Some (ErrResponseTooLarge
                       (BigEndian_Uint32 (toSlice mem2 (sharedMem c) 4) + 4) agentMaxMsglen), c, mem2)
      else (case chan_send (data c) (response_chunk mem2 (sharedMem c)) of
              Panics e \<Rightarrow> Panics e
            | Blocks \<Rightarrow> Blocks
            | Returns ch \<Rightarrow> Returns (length p, None, c\<lparr>data := ch\<rparr>, mem2)))"
    unfolding Write_notified [OF assms False s] response_fits response_chunk_eq ..
  consider (zero) "result = 0" | (big) "result \<noteq> 0" "agentMaxMsglen - 4 < ?L"
    | (shut) "result \<noteq> 0" "\<not> agentMaxMsglen - 4 < ?L" "closed (data c)"
    | (full) "result \<noteq> 0" "\<not> agentMaxMsglen - 4 < ?L" "\<not> closed (data c)"
        "\<not> length (items (data c)) < cap (data c)"
    | (sent) "result \<noteq> 0" "\<not> agentMaxMsglen - 4 < ?L" "\<not> closed (data c)"
        "length (items (data c)) < cap (data c)"
    by blast
  then show ?thesis
  proof cases
    case zero
    then show ?thesis unfolding w s by (simp split: option.splits)
  next
    case big
    then show ?thesis unfolding w s by auto
  next
    case shut
    then show ?thesis unfolding w s by (simp add: chan_send_def)
  next
    case full
    then show ?thesis unfolding w s by (simp add: chan_send_def)
  next
    case sent
    with False show ?thesis unfolding w s by (auto simp: chan_send_def)
  qed
qed

lemma Write_success_valid:
  assumes "Write call c mem p = Returns (n, None, c', mem')"
  shows "0 < length p \<and> length p \<le> agentMaxMsglen"
proof (intro conjI)
  show "0 < length p"
  proof (rule ccontr)
    assume "\<not> 0 < length p"
    then have "p = []" by simp
    with assms show False by (simp add: Write_empty)
  qed
  show "length p \<le> agentMaxMsglen"
  proof (rule ccontr)
    assume "\<not> length p \<le> agentMaxMsglen"
    then have "agentMaxMsglen < length p" by simp
    from Write_too_large [OF this] assms show False by simp
  qed
qed

lemma Write_success_state:
  assumes "Write call c mem p = Returns (n, None, c', mem')"
  shows "sharedMem c \<noteq> 0" "\<not> closed (data c)" "n = length p"
    "c' = c\<lparr>data := (data c)\<lparr>items := items (data c) @ [response_chunk mem' (sharedMem c)]\<rparr>\<rparr>"
proof -
  from Write_success_valid [OF assms]
  have v: "0 < length p" "length p \<le> agentMaxMsglen" by simp_all
  from assms show "sharedMem c \<noteq> 0" "\<not> closed (data c)" "n = length p"
    "c' = c\<lparr>data := (data c)\<lparr>items := items (data c) @ [response_chunk mem' (sharedMem c)]\<rparr>\<rparr>"
    unfolding Write_success_iff [OF v] by simp_all
qed

lemma Write_conn0_pong:
  assumes "result \<noteq> 0"
  shows "Write (agent_answers result err pong) conn0 mem0 ping = Returns (4, None, conn_pong, mem_pong)"
proof -
  have "0 < length ping" "length ping \<le> agentMaxMsglen"
    by (simp_all add: ping_def agentMaxMsglen_def)
  from Write_success_iff [OF this] assms show ?thesis
    by (simp add: sendMessage_agent_answers conn0_simps conn_pong_def mem_pong_def
        response_length_pong response_chunk_pong agentMaxMsglen_def make_chan_def ping_def)
qed

lemma Write_conn_pong_pang:
  assumes "result \<noteq> 0"
  shows "Write (agent_answers result err pang) conn_pong mem_pong ping = Returns (4, None, conn_pang, mem_pang)"
proof -
  have "0 < length ping" "length ping \<le> agentMaxMsglen"
    by (simp_all add: ping_def agentMaxMsglen_def)
  from Write_success_iff [OF this] assms show ?thesis
    by (simp add: sendMessage_agent_answers conn0_simps conn_pong_def conn_pang_def mem_pang_def
        response_length_pang response_chunk_pang agentMaxMsglen_def make_chan_def ping_def)
qed

subsection \<open>The branches of Read\<close>

lemma copy_slice_eq:
  "copy_slice p b = (min (length p) (length b), take (min (length p) (length b)) b
      @ drop (min (length p) (length b)) p)"
  by (simp add: copy_slice_def Let_def)

lemma Read_buf:
  assumes "\<not> eof c" "sharedMem c \<noteq> 0" "buf c \<noteq> []"
  shows "Read c p =
     Returns (min (length p) (length (buf c)), None,
              take (min (length p) (length (buf c))) (buf c)
                @ drop (min (length p) (length (buf c))) p,
              c\<lparr>buf := drop (min (length p) (length (buf c))) (buf c)\<rparr>)"
  using assms by (simp add: Read_def copy_slice_eq)

lemma Read_recv:
  assumes "\<not> eof c" "sharedMem c \<noteq> 0" "buf c = []" "items (data c) = v # rest"
  shows "Read c p =
     Returns (min (length p) (length v), None,
              take (min (length p) (length v)) v @ drop (min (length p) (length v)) p,
              c\<lparr>buf := drop (min (length p) (length v)) v, data := (data c)\<lparr>items := rest\<rparr>\<rparr>)"
  using assms by (simp add: Read_def chan_recv_def copy_slice_eq)

lemma Read_blocks:
  assumes "\<not> eof c" "sharedMem c \<noteq> 0" "buf c = []" "items (data c) = []" "\<not> closed (data c)"
  shows "Read c p = Blocks"
  using assms by (simp add: Read_def chan_recv_def)

lemma Read_drained:
  assumes "\<not> eof c" "sharedMem c \<noteq> 0" "buf c = []" "items (data c) = []" "closed (data c)"
  shows "Read c p = Returns (0, Some EOF, p, c\<lparr>buf := [], eof := True\<rparr>)"
  using assms by (simp add: Read_def chan_recv_def)

lemma Read_pending:
  assumes "\<not> eof c" "sharedMem c \<noteq> 0" "pending c = ch # rest"
  shows "Read c p =
     Returns (min (length p) (length ch), None,
              take (min (length p) (length ch)) ch @ drop (min (length p) (length ch)) p,
              c\<lparr>buf := drop (min (length p) (length ch)) ch, data := (data c)\<lparr>items := rest\<rparr>\<rparr>)"
proof (cases "buf c = []")
  case True
  with assms(3) have "items (data c) = ch # rest" by (simp add: pending_def)
  from Read_recv [OF assms(1,2) True this] show ?thesis by simp
next
  case False
  with assms(3) have "buf c = ch" "items (data c) = rest" by (simp_all add: pending_def)
  with Read_buf [OF assms(1,2) False, of p] show ?thesis by simp
qed

subsection \<open>Reads against the stream of chunks\<close>

text \<open>
  On a connected connection whose channel is open and holds no empty chunk, the reads
  of the code return what the chunk-by-chunk description returns on the pending chunks.
\<close>

lemma Reads_refine:
  assumes "\<not> eof c" "sharedMem c \<noteq> 0" "\<not> closed (data c)"
  shows "Reads c ps = spec_reads (pending c) ps"
  using assms
proof (induction ps arbitrary: c)
  case Nil
  show ?case by simp
next
  case (Cons p ps)
  show ?case
  proof (cases "pending c")
    case Nil
    then have "buf c = []" "items (data c) = []"
      by (simp_all add: pending_def split: if_splits)
    with Cons.prems have "Read c p = Blocks" by (simp add: Read_blocks)
    with Nil show ?thesis by simp
  next
    case (Cons ch rest)
    let ?n = "min (length p) (length ch)"
    let ?c' = "c\<lparr>buf := drop ?n ch, data := (data c)\<lparr>items := rest\<rparr>\<rparr>"
    have r: "Read c p = Returns (?n, None, take ?n ch @ drop ?n p, ?c')"
      using Read_pending [OF Cons.prems(1,2) Cons] .
    have "Reads ?c' ps = spec_reads (pending ?c') ps"
      using Cons.prems by (intro Cons.IH) simp_all
    moreover have "pending ?c' = (if ?n < length ch then drop ?n ch # rest else rest)"
      by (simp add: pending_def)
    ultimately show ?thesis using r Cons by (simp add: Let_def)
  qed
qed

lemma pending_enqueue:
  "pending (c\<lparr>data := (data c)\<lparr>items := items (data c) @ [v]\<rparr>\<rparr>) = pending c @ [v]"
  by (simp add: pending_def)

lemma delivered_spec_reads_Nil: "delivered (spec_reads [] qs) = []"
  by (cases qs) simp_all

lemma delivered_single:
  "delivered (spec_reads [ch] qs) = take (sum_list (map length qs)) ch"
proof (induction qs arbitrary: ch)
  case Nil
  show ?case by simp
next
  case (Cons q qs)
  show ?case
  proof (cases "length q < length ch")
    case True
    then have m: "min (length q) (length ch) = length q" by simp
    from True show ?thesis
      by (simp add: Let_def m Cons.IH take_add)
  next
    case False
    then have m: "min (length q) (length ch) = length ch" by simp
    from False show ?thesis
      by (simp add: Let_def m delivered_spec_reads_Nil)
  qed
qed

lemma Writes_enqueue:
  assumes "Writes c mem ws = Returns (rs, c', mem')" "\<forall>r \<in> set rs. fst (snd r) = None"
  shows "c' = c\<lparr>data := (data c)\<lparr>items := items (data c)
            @ map (\<lambda>r. response_chunk (snd (snd r)) (sharedMem c)) rs\<rparr>\<rparr> \<and>
         length rs = length ws \<and>
         (ws \<noteq> [] \<longrightarrow> sharedMem c \<noteq> 0 \<and> \<not> closed (data c))"
  using assms
proof (induction ws arbitrary: c mem rs)
  case Nil
  then show ?case by simp
next
  case (Cons w ws)
  obtain call p where w: "w = (call, p)" by (cases w)
  from Cons.prems(1) obtain n err c1 m1 where
    w1: "Write call c mem p = Returns (n, err, c1, m1)"
    unfolding w by (auto split: outcome.splits)
  from Cons.prems(1) w1 obtain rs' where
    ws: "Writes c1 m1 ws = Returns (rs', c', mem')" and rs: "rs = (n, err, m1) # rs'"
    unfolding w by (auto split: outcome.splits)
  from Cons.prems(2) rs have err: "err = None" and rest: "\<forall>r \<in> set rs'. fst (snd r) = None"
    by simp_all
  note st = Write_success_state [OF w1 [unfolded err]]
  from st(4) have sm: "sharedMem c1 = sharedMem c" by simp
  from Cons.IH [OF ws rest] have
    c': "c' = c1\<lparr>data := (data c1)\<lparr>items := items (data c1)
            @ map (\<lambda>r. response_chunk (snd (snd r)) (sharedMem c1)) rs'\<rparr>\<rparr>"
    and l: "length rs' = length ws" by simp_all
  have "c' = c\<lparr>data := (data c)\<lparr>items := items (data c)
            @ map (\<lambda>r. response_chunk (snd (snd r)) (sharedMem c)) rs\<rparr>\<rparr>"
    unfolding c' sm rs using st(4) by simp
  with st(1,2) l rs show ?case by simp
qed

subsection \<open>A closed connection\<close>

lemma Close_released:
  "Close u h c = Returns (None, c') \<Longrightarrow> sharedMem c' = 0 \<and> eof c' = eof c"
  by (auto simp: Close_def Let_def chan_close_def split: if_splits option.splits)

lemma Read_closed:
  "sharedMem c = 0 \<Longrightarrow>
   Read c p = Returns (0, Some (if eof c then EOF else ErrNotConnected), p, c)"
  by (simp add: Read_def)

lemma Close_closed: "sharedMem c = 0 \<Longrightarrow> Close u h c = Returns (None, c)"
  by (simp add: Close_def)

lemma Write_closed:
  "sharedMem c = 0 \<Longrightarrow>
   Write call c mem p =
     Returns (0, Some (if agentMaxMsglen < length p
                       then ErrRequestTooLarge (length p) agentMaxMsglen
                       else if length p = 0 then ErrEmptyMessage else ErrNotConnected), c, mem)"
  by (simp add: Write_def)

lemma Close_conn0: "Close sys_ok sys_ok conn0 = Returns (None, closed0)"
  by (simp add: Close_def conn0_simps closed0_def chan_close_def make_chan_def sys_ok_def Let_def)

subsection \<open>Region names\<close>

lemma hexdigit_inject:
  assumes "a < 16" "b < 16" "hexdigit a = hexdigit b"
  shows "a = b"
proof -
  have d: "distinct ''0123456789abcdef''" by simp
  have l: "length ''0123456789abcdef'' = 16" by simp
  from assms show ?thesis
    unfolding hexdigit_def using nth_eq_iff_index_eq [OF d, of a b] l by simp
qed

lemma fmt_x_nonempty: "fmt_x n \<noteq> []"
  by (subst fmt_x.simps) simp

lemma fmt_x_inject: "fmt_x a = fmt_x b \<Longrightarrow> a = b"
proof (induction a arbitrary: b rule: fmt_x.induct)
  case (1 a)
  show ?case
  proof (cases "a < 16")
    case small: True
    show ?thesis
    proof (cases "b < 16")
      case True
      with small "1.prems" have "hexdigit a = hexdigit b"
        by (simp add: fmt_x.simps [of a] fmt_x.simps [of b])
      with small True show ?thesis by (rule hexdigit_inject)
    next
      case False
      with small "1.prems" have "fmt_x (b div 16) = []"
        by (simp add: fmt_x.simps [of a] fmt_x.simps [of b])
      with fmt_x_nonempty show ?thesis by blast
    qed
  next
    case big: False
    show ?thesis
    proof (cases "b < 16")
      case True
      with big "1.prems" have "fmt_x (a div 16) = []"
        by (simp add: fmt_x.simps [of a] fmt_x.simps [of b])
      with fmt_x_nonempty show ?thesis by blast
    next
      case False
      with big "1.prems" have
        q: "fmt_x (a div 16) = fmt_x (b div 16)" and
        r: "hexdigit (a mod 16) = hexdigit (b mod 16)"
        by (simp_all add: fmt_x.simps [of a] fmt_x.simps [of b])
      from "1.IH" [OF big q] have "a div 16 = b div 16" .
      moreover from r have "a mod 16 = b mod 16"
        by (intro hexdigit_inject) simp_all
      ultimately show ?thesis by (metis div_mult_mod_eq)
    qed
  qed
qed

lemma region_name_inject:
  assumes "region_name pid u = region_name pid v"
  shows "u = v"
proof -
  from assms have "fmt_x (unat u) = fmt_x (unat v)" by (simp add: region_name_def)
  then have "unat u = unat v" by (rule fmt_x_inject)
  then show ?thesis by (simp add: word_unat_eq_iff)
qed

lemma NewPageantConn_Inr:
  assumes "NewPageantConn pid probe os uid = (Inr c, uid')"
  shows "uid' = uid + 1 \<and> mapName c = region_name pid (uid + 1)"
  using assms
  by (auto simp: NewPageantConn_def establishConn_def new_Conn_def Let_def
      split: if_splits sum.splits option.splits prod.splits)

lemma NewPageantConn_uid:
  assumes "NewPageantConn pid probe os uid = (r, uid')"
  shows "uid' = uid \<or> uid' = uid + 1"
  using assms
  by (auto simp: NewPageantConn_def establishConn_def new_Conn_def Let_def
      split: if_splits sum.splits option.splits prod.splits)

lemma names_of_connect_all:
  "n \<in> set (names_of (connect_all pid uid envs)) \<Longrightarrow>
   \<exists>k \<in> {1 .. length envs}. n = region_name pid (uid + of_nat k)"
proof (induction envs arbitrary: uid)
  case Nil
  then show ?case by simp
next
  case (Cons env envs)
  obtain probe os where env: "env = (probe, os)" by (cases env)
  obtain r uid' where new: "NewPageantConn pid probe os uid = (r, uid')"
    by (cases "NewPageantConn pid probe os uid")
  have later: "\<exists>k \<in> {1 .. length (env # envs)}. n = region_name pid (uid + of_nat k)"
    if "n \<in> set (names_of (connect_all pid uid' envs))"
  proof -
    from Cons.IH [OF that] obtain k where
      k: "1 \<le> k" "k \<le> length envs" "n = region_name pid (uid' + of_nat k)" by auto
    from NewPageantConn_uid [OF new] show ?thesis
    proof
      assume "uid' = uid"
      with k have "k \<in> {1 .. length (env # envs)}" "n = region_name pid (uid + of_nat k)"
        by simp_all
      then show ?thesis by blast
    next
      assume "uid' = uid + 1"
      with k have "Suc k \<in> {1 .. length (env # envs)}"
        "n = region_name pid (uid + of_nat (Suc k))"
        by (simp_all add: ac_simps)
      then show ?thesis by blast
    qed
  qed
  show ?case
  proof (cases r)
    case (Inl e)
    with Cons.prems env new have "n \<in> set (names_of (connect_all pid uid' envs))" by simp
    then show ?thesis by (rule later)
  next
    case (Inr c)
    with Cons.prems env new have
      "n = mapName c \<or> n \<in> set (names_of (connect_all pid uid' envs))" by auto
    then show ?thesis
    proof
      assume "n = mapName c"
      with NewPageantConn_Inr [OF new [unfolded Inr]]
      have "n = region_name pid (uid + of_nat 1)" "1 \<in> {1 .. length (env # envs)}"
        by simp_all
      then show ?thesis by blast
    next
      assume "n \<in> set (names_of (connect_all pid uid' envs))"
      then show ?thesis by (rule later)
    qed
  qed
qed

lemma counter_advanced:
  fixes uid :: "64 word"
  assumes "1 \<le> k" "k < 2 ^ 64"
  shows "uid + of_nat k \<noteq> uid"
proof
  assume "uid + of_nat k = uid"
  then have "(of_nat k :: 64 word) = 0" by simp
  then have "(2 :: nat) ^ 64 dvd k" by (simp add: word_of_nat_eq_0_iff)
  with assms show False by (auto dest: dvd_imp_le)
qed

subsection \<open>C1: a write, then reads\<close>

text \<open>
  C1. Let \<open>p\<close> be a request of 1 to 8192 bytes and let \<^verbatim>\<open>Write(p)\<close> return without an
  error. Then the region held \<open>p\<close> at its start when the agent was notified, the agent
  answered a nonzero result and left the memory \<open>mem'\<close>, the count returned is the
  length of \<open>p\<close>, and exactly one chunk was appended to the queue: the 4 bytes at the
  start of the region, which decode big-endian to \<open>L\<close>, followed by the \<open>L\<close> bytes after
  them, \<open>4 + L\<close> bytes in all. The reads that follow return the chunks that were pending
  before the write and then this chunk, each read taking what fits into its buffer. If
  nothing was pending, a read into a buffer of at least \<open>4 + L\<close> bytes returns exactly
  this chunk, and the bytes that any sequence of reads delivers are the first bytes of
  it, as many as the buffers hold: all \<open>4 + L\<close> of them once the buffers hold that many.
\<close>

theorem Write_then_Read:
  assumes "0 < length p" "length p \<le> agentMaxMsglen"
    and "Write call c mem p = Returns (n, None, c', mem')"
  shows "toSlice (copy_to mem (sharedMem c) p) (sharedMem c) (length p) = p \<and>
     fst (sendMessage call c (name_payload (mapName c)) (copy_to mem (sharedMem c) p)) \<noteq> 0 \<and>
     snd (snd (sendMessage call c (name_payload (mapName c)) (copy_to mem (sharedMem c) p)))
       = mem' \<and>
     n = length p \<and>
     items (data c') = items (data c) @ [response_chunk mem' (sharedMem c)] \<and>
     buf c' = buf c \<and>
     length (response_chunk mem' (sharedMem c)) = 4 + response_length mem' (sharedMem c) \<and>
     unat (BigEndian_Uint32 (take 4 (response_chunk mem' (sharedMem c))))
       = response_length mem' (sharedMem c) \<and>
     drop 4 (response_chunk mem' (sharedMem c))
       = toSlice mem' (sharedMem c + 4) (response_length mem' (sharedMem c)) \<and>
     (\<not> eof c \<longrightarrow>
        (\<forall>qs. Reads c' qs = spec_reads (pending c @ [response_chunk mem' (sharedMem c)]) qs) \<and>
        (pending c = [] \<longrightarrow>
           (\<forall>q. 4 + response_length mem' (sharedMem c) \<le> length q \<longrightarrow>
              Read c' q =
                Returns (4 + response_length mem' (sharedMem c), None,
                         response_chunk mem' (sharedMem c)
                           @ drop (4 + response_length mem' (sharedMem c)) q,
                         c'\<lparr>buf := [], data := (data c')\<lparr>items := []\<rparr>\<rparr>)) \<and>
           (\<forall>qs. delivered (Reads c' qs)
              = take (sum_list (map length qs)) (response_chunk mem' (sharedMem c)))))"
proof -
  let ?ch = "response_chunk mem' (sharedMem c)"
  let ?L = "response_length mem' (sharedMem c)"
  note iff = Write_success_iff [OF assms(1,2), of call c mem n c' mem']
  from assms(3) iff have
    conn: "sharedMem c \<noteq> 0" and
    res: "fst (sendMessage call c (name_payload (mapName c)) (copy_to mem (sharedMem c) p)) \<noteq> 0"
    and m: "snd (snd (sendMessage call c (name_payload (mapName c))
                        (copy_to mem (sharedMem c) p))) = mem'"
    and op: "\<not> closed (data c)" and n: "n = length p"
    and c': "c' = c\<lparr>data := (data c)\<lparr>items := items (data c) @ [?ch]\<rparr>\<rparr>"
    by simp_all
  have cp: "toSlice (copy_to mem (sharedMem c) p) (sharedMem c) (length p) = p"
    by (rule toSlice_copy_to)
  from c' have it: "items (data c') = items (data c) @ [?ch]" and bf: "buf c' = buf c"
    by simp_all
  have len: "length ?ch = 4 + ?L" by (rule length_response_chunk)
  have pre: "unat (BigEndian_Uint32 (take 4 ?ch)) = ?L"
    by (simp add: take_4_response_chunk response_length_def)
  have pay: "drop 4 ?ch = toSlice mem' (sharedMem c + 4) ?L"
    by (simp add: response_chunk_def)
  have pend: "pending c' = pending c @ [?ch]"
    unfolding c' by (rule pending_enqueue)
  have stream: "Reads c' qs = spec_reads (pending c @ [?ch]) qs" if "\<not> eof c" for qs
  proof -
    from that c' conn op have "\<not> eof c'" "sharedMem c' \<noteq> 0" "\<not> closed (data c')"
      by simp_all
    from Reads_refine [OF this] pend show ?thesis by simp
  qed
  have one: "Read c' q = Returns (4 + ?L, None, ?ch @ drop (4 + ?L) q,
                                  c'\<lparr>buf := [], data := (data c')\<lparr>items := []\<rparr>\<rparr>)"
    if "\<not> eof c" "pending c = []" "4 + ?L \<le> length q" for q
  proof -
    from that(1) c' conn have live: "\<not> eof c'" "sharedMem c' \<noteq> 0" by simp_all
    from that(2) pend have p1: "pending c' = ?ch # []" by simp
    from that(3) have "min (length q) (length ?ch) = 4 + ?L" by (simp add: len)
    with Read_pending [OF live p1, of q] len show ?thesis by simp
  qed
  have all: "delivered (Reads c' qs) = take (sum_list (map length qs)) ?ch"
    if "\<not> eof c" "pending c = []" for qs
    using stream [OF that(1), of qs] that(2) by (simp add: delivered_single)
  from cp res m n it bf len pre pay stream one all show ?thesis by blast
qed

theorem Write_then_Read_witness:
  "Write (agent_answers 1 0 pong) conn0 mem0 ping = Returns (4, None, conn_pong, mem_pong) \<and>
   items (data conn_pong) = [pong] \<and>
   Read conn_pong (replicate 8 0)
     = Returns (8, None, pong, conn_pong\<lparr>buf := [], data := (data conn_pong)\<lparr>items := []\<rparr>\<rparr>) \<and>
   delivered (Reads conn_pong [replicate 3 0, replicate 3 0, replicate 3 0]) = pong"
proof -
  have v: "0 < length ping" "length ping \<le> agentMaxMsglen"
    by (simp_all add: ping_def agentMaxMsglen_def)
  have w: "Write (agent_answers 1 0 pong) conn0 mem0 ping = Returns (4, None, conn_pong, mem_pong)"
    by (simp add: Write_conn0_pong)
  have ch: "response_chunk mem_pong (sharedMem conn0) = pong"
    by (simp add: mem_pong_def conn0_simps response_chunk_pong)
  have ln: "response_length mem_pong (sharedMem conn0) = 4"
    by (simp add: mem_pong_def conn0_simps response_length_pong)
  have lp: "length pong = 8" by (simp add: pong_def)
  have fresh: "\<not> eof conn0" "pending conn0 = []"
    by (simp_all add: pending_def conn0_simps make_chan_def)
  note t = Write_then_Read [OF v w, unfolded ch ln]
  from t have i: "items (data conn_pong) = [pong]"
    by (simp add: conn0_simps make_chan_def)
  from t fresh have r: "\<forall>q. 4 + 4 \<le> length q \<longrightarrow>
      Read conn_pong q = Returns (4 + 4, None, pong @ drop (4 + 4) q,
                              conn_pong\<lparr>buf := [], data := (data conn_pong)\<lparr>items := []\<rparr>\<rparr>)"
    by blast
  from t fresh
  have d: "\<forall>qs. delivered (Reads conn_pong qs) = take (sum_list (map length qs)) pong"
    by blast
  from r have r8: "Read conn_pong (replicate 8 0)
     = Returns (8, None, pong, conn_pong\<lparr>buf := [], data := (data conn_pong)\<lparr>items := []\<rparr>\<rparr>)"
    by simp
  from spec [OF d, of "[replicate 3 0, replicate 3 0, replicate 3 0]"]
  have d3: "delivered (Reads conn_pong [replicate 3 0, replicate 3 0, replicate 3 0]) = pong"
    by (simp add: lp del: Reads.simps)
  from w i r8 d3 show ?thesis by simp
qed

subsection \<open>C2: the three size rejections of Write\<close>

text \<open>
  C2. A write of no bytes fails with the empty-message error and a write of more than
  8192 bytes with the oversize-request error, whatever the state of the connection; in
  both the connection and the memory (so the shared region) are returned as they were.
  A write of a valid size on a connected connection whose notification is answered with
  a nonzero reply and a region that declares a length \<open>L > 8192 - 4\<close> fails with the
  oversize-response error. In all three the count is 0 and the connection, with its
  queue, is unchanged.
\<close>

theorem Write_rejects:
  "(length p = 0 \<longrightarrow> Write call c mem p = Returns (0, Some ErrEmptyMessage, c, mem)) \<and>
   (agentMaxMsglen < length p \<longrightarrow>
      Write call c mem p = Returns (0, Some (ErrRequestTooLarge (length p) agentMaxMsglen), c, mem)) \<and>
   (0 < length p \<and> length p \<le> agentMaxMsglen \<and> sharedMem c \<noteq> 0 \<and>
    sendMessage call c (name_payload (mapName c)) (copy_to mem (sharedMem c) p)
      = (result, err, mem2) \<and>
    result \<noteq> 0 \<and> agentMaxMsglen - 4 < response_length mem2 (sharedMem c) \<longrightarrow>
      Write call c mem p =
        Returns (0, Some (ErrResponseTooLarge
                   (BigEndian_Uint32 (toSlice mem2 (sharedMem c) 4) + 4) agentMaxMsglen), c, mem2))"
proof (intro conjI impI)
  assume "length p = 0"
  then show "Write call c mem p = Returns (0, Some ErrEmptyMessage, c, mem)"
    by (simp add: Write_empty)
next
  assume "agentMaxMsglen < length p"
  then show "Write call c mem p
      = Returns (0, Some (ErrRequestTooLarge (length p) agentMaxMsglen), c, mem)"
    by (rule Write_too_large)
next
  assume h: "0 < length p \<and> length p \<le> agentMaxMsglen \<and> sharedMem c \<noteq> 0 \<and>
    sendMessage call c (name_payload (mapName c)) (copy_to mem (sharedMem c) p)
      = (result, err, mem2) \<and>
    result \<noteq> 0 \<and> agentMaxMsglen - 4 < response_length mem2 (sharedMem c)"
  then have "8188 < unat (BigEndian_Uint32 (toSlice mem2 (sharedMem c) 4))"
    by (simp add: response_length_def agentMaxMsglen_def)
  then have big: "of_nat agentMaxMsglen - 4 < BigEndian_Uint32 (toSlice mem2 (sharedMem c) 4)"
    by (simp add: agentMaxMsglen_def word_less_nat_alt)
  from h have "Write call c mem p =
     (if result = 0
      then (case err of
              Some e \<Rightarrow> Returns (0, Some (ErrSendFailed e), c, mem2)
            | None \<Rightarrow> Returns (0, Some ErrRequestRefused, c, mem2))
      else if BigEndian_Uint32 (toSlice mem2 (sharedMem c) 4) > of_nat agentMaxMsglen - 4
      then Returns (0, Some (ErrResponseTooLarge
                       (BigEndian_Uint32 (toSlice mem2 (sharedMem c) 4) + 4) agentMaxMsglen), c, mem2)
      else (case chan_send (data c)
                   (toSlice mem2 (sharedMem c)
                      (4 + unat (BigEndian_Uint32 (toSlice mem2 (sharedMem c) 4)))) of
              Panics e \<Rightarrow> Panics e
            | Blocks \<Rightarrow> Blocks
            | Returns ch \<Rightarrow> Returns (length p, None, c\<lparr>data := ch\<rparr>, mem2)))"
    by (intro Write_notified) simp_all
  with h big show "Write call c mem p =
        Returns (0, Some (ErrResponseTooLarge
                   (BigEndian_Uint32 (toSlice mem2 (sharedMem c) 4) + 4) agentMaxMsglen), c, mem2)"
    by simp
qed

theorem Write_rejects_witness:
  "Write (agent_answers 1 0 oversize) conn0 mem0 []
      = Returns (0, Some ErrEmptyMessage, conn0, mem0) \<and>
   Write (agent_answers 1 0 oversize) conn0 mem0 (replicate 8193 0)
      = Returns (0, Some (ErrRequestTooLarge 8193 8192), conn0, mem0) \<and>
   Write (agent_answers 1 0 oversize) conn0 mem0 ping
      = Returns (0, Some (ErrResponseTooLarge 8193 8192), conn0,
                 copy_to (copy_to mem0 0x10000 ping) 0x10000 oversize)"
proof -
  let ?call = "agent_answers 1 0 oversize"
  let ?mem2 = "copy_to (copy_to mem0 0x10000 ping) 0x10000 oversize"
  have s: "sendMessage ?call conn0 (name_payload (mapName conn0))
             (copy_to mem0 (sharedMem conn0) ping) = (1, None, ?mem2)"
    by (simp add: sendMessage_agent_answers conn0_simps)
  have l: "response_length ?mem2 (sharedMem conn0) = 8189"
    by (simp add: response_length_def conn0_simps BigEndian_oversize)
  from Write_rejects [of "[]" ?call conn0 mem0]
  have a: "Write ?call conn0 mem0 [] = Returns (0, Some ErrEmptyMessage, conn0, mem0)"
    by simp
  from Write_rejects [of "replicate 8193 0" ?call conn0 mem0]
  have b: "Write ?call conn0 mem0 (replicate 8193 0)
      = Returns (0, Some (ErrRequestTooLarge 8193 8192), conn0, mem0)"
    by (simp add: agentMaxMsglen_def)
  from Write_rejects [of ping ?call conn0 mem0 1 None ?mem2] s l
  have c: "Write ?call conn0 mem0 ping
      = Returns (0, Some (ErrResponseTooLarge 8193 8192), conn0, ?mem2)"
    by (simp add: agentMaxMsglen_def conn0_simps ping_def BigEndian_oversize)
  from a b c show ?thesis by simp
qed

subsection \<open>C3: after a successful Close\<close>

text \<open>
  C3, as the claim states it, fails on a connection that is closed before any read has
  seen the channel closed: \<^verbatim>\<open>Close\<close> succeeds, the next \<^verbatim>\<open>Read\<close> returns the
  not-connected error and not \<^verbatim>\<open>io.EOF\<close>, and a \<^verbatim>\<open>Write\<close> of no bytes returns the
  empty-message error and not the not-connected error.
\<close>

theorem after_Close_counterexample:
  "Close sys_ok sys_ok conn0 = Returns (None, closed0) \<and>
   Read closed0 [0, 0, 0, 0] = Returns (0, Some ErrNotConnected, [0, 0, 0, 0], closed0) \<and>
   Write (agent_answers 1 0 pong) closed0 mem0 [] = Returns (0, Some ErrEmptyMessage, closed0, mem0)"
  by (simp add: Close_conn0 Read_def Write_empty closed0_def conn0_simps)

text \<open>
  C3, amended. After a \<^verbatim>\<open>Close\<close> that returned nil, every \<^verbatim>\<open>Read\<close> returns
  \<^verbatim>\<open>io.EOF\<close> if the end-of-stream flag was already set and the not-connected error
  otherwise; every \<^verbatim>\<open>Write\<close> of 1 to 8192 bytes returns the not-connected error, and
  a write of another size its size error; every \<^verbatim>\<open>Close\<close> returns nil. Each of these
  calls returns the connection as it was, so the same holds for every call after it.
\<close>

theorem after_Close:
  assumes "Close u h c = Returns (None, c')"
  shows "Read c' p = Returns (0, Some (if eof c then EOF else ErrNotConnected), p, c') \<and>
         Write call c' mem q =
           Returns (0, Some (if agentMaxMsglen < length q
                             then ErrRequestTooLarge (length q) agentMaxMsglen
                             else if length q = 0 then ErrEmptyMessage
                             else ErrNotConnected), c', mem) \<and>
         Close u' h' c' = Returns (None, c')"
proof -
  from assms have z: "sharedMem c' = 0" and e: "eof c' = eof c"
    using Close_released by blast+
  from z e show ?thesis
    by (simp add: Read_closed Write_closed Close_closed)
qed

theorem after_Close_witness:
  "Read closed0 [0, 0, 0, 0] = Returns (0, Some ErrNotConnected, [0, 0, 0, 0], closed0) \<and>
   Write (agent_answers 1 0 pong) closed0 mem0 ping
     = Returns (0, Some ErrNotConnected, closed0, mem0) \<and>
   Close sys_ok sys_ok closed0 = Returns (None, closed0)"
  using after_Close [OF Close_conn0, of "[0, 0, 0, 0]" "agent_answers 1 0 pong" mem0 ping
      sys_ok sys_ok]
  by (simp add: conn0_simps ping_def agentMaxMsglen_def)

subsection \<open>C4: refusal and transport failure\<close>

text \<open>
  C4, as the claim states it, fails when the notification returns a nonzero result
  together with an error: \<^verbatim>\<open>sendMessage\<close> hands back the error, and
  \<^verbatim>\<open>Write\<close>, which looks at the error only after it has found the result 0, does
  not fail with the failed-to-send error but reads the response and returns without an
  error.
\<close>

theorem Write_notify_error_counterexample:
  "sendMessage (agent_answers 1 5 pong) conn0 (name_payload (mapName conn0))
       (copy_to mem0 (sharedMem conn0) ping) = (1, Some 5, mem_pong) \<and>
   Write (agent_answers 1 5 pong) conn0 mem0 ping = Returns (4, None, conn_pong, mem_pong)"
  by (simp add: Write_conn0_pong sendMessage_agent_answers conn0_simps mem_pong_def)

text \<open>
  C4, amended. For every write of a valid size on a connected connection whose
  notification returns the result 0: with no error the write fails with the
  request-refused error, with an error \<open>e\<close> it fails with the failed-to-send error that
  carries \<open>e\<close>; the two errors differ, and the connection, with its queue, is unchanged.
  When the result is not 0, an error that comes with it is ignored: the write goes on
  to the response in the region, as it does without an error.
\<close>

theorem Write_reply:
  assumes "0 < length p" "length p \<le> agentMaxMsglen" "sharedMem c \<noteq> 0"
    and "sendMessage call c (name_payload (mapName c)) (copy_to mem (sharedMem c) p)
           = (result, err, mem2)"
  shows "(result = 0 \<and> err = None \<longrightarrow>
            Write call c mem p = Returns (0, Some ErrRequestRefused, c, mem2)) \<and>
         (result = 0 \<and> err = Some e \<longrightarrow>
            Write call c mem p = Returns (0, Some (ErrSendFailed e), c, mem2)) \<and>
         ErrRequestRefused \<noteq> ErrSendFailed e \<and>
         (result \<noteq> 0 \<longrightarrow>
            Write call c mem p =
              (if agentMaxMsglen - 4 < response_length mem2 (sharedMem c)
               then Returns (0, Some (ErrResponseTooLarge
                       (BigEndian_Uint32 (toSlice mem2 (sharedMem c) 4) + 4) agentMaxMsglen),
                       c, mem2)
               else (case chan_send (data c) (response_chunk mem2 (sharedMem c)) of
                       Panics x \<Rightarrow> Panics x
                     | Blocks \<Rightarrow> Blocks
                     | Returns ch \<Rightarrow> Returns (length p, None, c\<lparr>data := ch\<rparr>, mem2))))"
  unfolding Write_notified [OF assms] response_fits response_chunk_eq by simp

theorem Write_reply_witness:
  "Write (agent_answers 0 0 pong) conn0 mem0 ping
     = Returns (0, Some ErrRequestRefused, conn0, mem_pong) \<and>
   Write (agent_answers 0 5 pong) conn0 mem0 ping
     = Returns (0, Some (ErrSendFailed 5), conn0, mem_pong) \<and>
   Write (agent_answers 1 5 pong) conn0 mem0 ping = Returns (4, None, conn_pong, mem_pong)"
proof -
  have v: "0 < length ping" "length ping \<le> agentMaxMsglen" "sharedMem conn0 \<noteq> 0"
    by (simp_all add: ping_def agentMaxMsglen_def conn0_simps)
  have a: "sendMessage (agent_answers 0 0 pong) conn0 (name_payload (mapName conn0))
             (copy_to mem0 (sharedMem conn0) ping) = (0, None, mem_pong)"
    by (simp add: sendMessage_agent_answers conn0_simps mem_pong_def)
  have b: "sendMessage (agent_answers 0 5 pong) conn0 (name_payload (mapName conn0))
             (copy_to mem0 (sharedMem conn0) ping) = (0, Some 5, mem_pong)"
    by (simp add: sendMessage_agent_answers conn0_simps mem_pong_def)
  have c: "sendMessage (agent_answers 1 5 pong) conn0 (name_payload (mapName conn0))
             (copy_to mem0 (sharedMem conn0) ping) = (1, Some 5, mem_pong)"
    by (simp add: sendMessage_agent_answers conn0_simps mem_pong_def)
  have r: "response_length mem_pong 0x10000 = 4" "response_chunk mem_pong 0x10000 = pong"
    by (simp_all add: mem_pong_def response_length_pong response_chunk_pong)
  from Write_reply [OF v a] have 1: "Write (agent_answers 0 0 pong) conn0 mem0 ping
     = Returns (0, Some ErrRequestRefused, conn0, mem_pong)" by simp
  from Write_reply [OF v b, of 5] have 2: "Write (agent_answers 0 5 pong) conn0 mem0 ping
     = Returns (0, Some (ErrSendFailed 5), conn0, mem_pong)" by simp
  from Write_reply [OF v c] have 3: "Write (agent_answers 1 5 pong) conn0 mem0 ping
     = Returns (4, None, conn_pong, mem_pong)"
    by (simp add: r agentMaxMsglen_def chan_send_def conn0_simps make_chan_def conn_pong_def
        ping_def)
  from 1 2 3 show ?thesis by simp
qed

subsection \<open>C5: several writes, then reads\<close>

text \<open>
  C5. Let a non-empty sequence of writes on a connection with nothing pending all return
  without an error. Then the queue holds one chunk for each write, the response that
  write found in the region, in the order of the writes; and any sequence of reads
  returns what reading these chunks one after the other returns: each read takes from
  the chunk at the head as much as fits into its buffer, the next read goes on in the
  same chunk where the last one stopped, and the following chunk is only begun when the
  one before it is drained.
\<close>

theorem Writes_then_Reads:
  assumes "Writes c mem ws = Returns (rs, c', mem')" "ws \<noteq> []"
    and "\<forall>r \<in> set rs. fst (snd r) = None"
    and "buf c = []" "items (data c) = []" "\<not> eof c"
  shows "length rs = length ws \<and>
         items (data c') = map (\<lambda>r. response_chunk (snd (snd r)) (sharedMem c)) rs \<and>
         Reads c' ps = spec_reads (items (data c')) ps"
proof -
  from Writes_enqueue [OF assms(1,3)] assms(2) have
    c': "c' = c\<lparr>data := (data c)\<lparr>items := items (data c)
            @ map (\<lambda>r. response_chunk (snd (snd r)) (sharedMem c)) rs\<rparr>\<rparr>"
    and l: "length rs = length ws" and live: "sharedMem c \<noteq> 0" "\<not> closed (data c)"
    by simp_all
  from c' assms(5) have
    it: "items (data c') = map (\<lambda>r. response_chunk (snd (snd r)) (sharedMem c)) rs"
    by simp
  from c' assms(4) it have pend: "pending c' = items (data c')"
    by (simp add: pending_def)
  from c' live assms(6) have "\<not> eof c'" "sharedMem c' \<noteq> 0" "\<not> closed (data c')"
    by simp_all
  from Reads_refine [OF this] pend have "Reads c' ps = spec_reads (items (data c')) ps"
    by simp
  with l it show ?thesis by simp
qed

theorem Writes_then_Reads_witness:
  "Writes conn0 mem0 [(agent_answers 1 0 pong, ping), (agent_answers 1 0 pang, ping)]
     = Returns ([(4, None, mem_pong), (4, None, mem_pang)], conn_pang, mem_pang) \<and>
   items (data conn_pang) = [pong, pang] \<and>
   Reads conn_pang
       [[0, 0, 0, 0, 0], [0, 0, 0, 0, 0], [0, 0, 0, 0, 0], [0, 0, 0, 0, 0], [0, 0, 0, 0, 0]]
     = [Returns (5, None, [0, 0, 0, 4, 0x70]), Returns (3, None, [0x6f, 0x6e, 0x67, 0, 0]),
        Returns (5, None, [0, 0, 0, 4, 0x70]), Returns (3, None, [0x61, 0x6e, 0x67, 0, 0]),
        Blocks]"
proof -
  let ?ws = "[(agent_answers 1 0 pong, ping), (agent_answers 1 0 pang, ping)]"
  let ?ps = "[[0, 0, 0, 0, 0], [0, 0, 0, 0, 0], [0, 0, 0, 0, 0], [0, 0, 0, 0, 0],
              [0, 0, 0, 0, 0 :: byte]]"
  have w: "Writes conn0 mem0 ?ws
      = Returns ([(4, None, mem_pong), (4, None, mem_pang)], conn_pang, mem_pang)"
    by (simp add: Write_conn0_pong Write_conn_pong_pang)
  have ch: "response_chunk mem_pong (sharedMem conn0) = pong"
    "response_chunk mem_pang (sharedMem conn0) = pang"
    by (simp_all add: mem_pong_def mem_pang_def conn0_simps response_chunk_pong
        response_chunk_pang)
  have pre: "?ws \<noteq> []"
    "\<forall>r \<in> set [(4, None, mem_pong), (4, None, mem_pang)].
        fst (snd r) = (None :: error option)"
    "buf conn0 = []" "items (data conn0) = []" "\<not> eof conn0"
    by (simp_all add: conn0_simps make_chan_def)
  from Writes_then_Reads [OF w pre, of ?ps]
  have it: "items (data conn_pang) = [pong, pang]"
    and rd: "Reads conn_pang ?ps = spec_reads (items (data conn_pang)) ?ps"
    by (simp_all add: ch del: Reads.simps)
  have "spec_reads [pong, pang] ?ps
     = [Returns (5, None, [0, 0, 0, 4, 0x70]), Returns (3, None, [0x6f, 0x6e, 0x67, 0, 0]),
        Returns (5, None, [0, 0, 0, 4, 0x70]), Returns (3, None, [0x61, 0x6e, 0x67, 0, 0]),
        Blocks]"
    by (simp add: pong_def pang_def Let_def)
  with w it rd show ?thesis by (simp only:)
qed

subsection \<open>C6: one read\<close>

text \<open>
  C6, as the claim states it, fails on a connection that was closed while a chunk was
  still on the queue: \<^verbatim>\<open>Read\<close> finds \<^verbatim>\<open>c.sharedMem == 0\<close>, returns the
  not-connected error with count 0 and copies nothing, although the chunk is available.
\<close>

theorem Read_closed_counterexample:
  "Close sys_ok sys_ok conn_pong = Returns (None, closed_pong) \<and>
   items (data closed_pong) = [pong] \<and>
   Read closed_pong [0, 0, 0, 0, 0]
     = Returns (0, Some ErrNotConnected, [0, 0, 0, 0, 0], closed_pong)"
proof -
  have "Close sys_ok sys_ok conn_pong = Returns (None, closed_pong)"
    by (simp add: Close_def conn_pong_def conn0_simps closed_pong_def chan_close_def
        make_chan_def sys_ok_def Let_def)
  moreover have "items (data closed_pong) = [pong]"
    by (simp add: closed_pong_def conn_pong_def make_chan_def)
  moreover have "Read closed_pong [0, 0, 0, 0, 0]
     = Returns (0, Some ErrNotConnected, [0, 0, 0, 0, 0], closed_pong)"
    by (simp add: Read_def closed_pong_def conn_pong_def conn0_simps)
  ultimately show ?thesis by simp
qed

text \<open>
  C6, amended. On a connection that is connected and has not seen the end of the
  stream, let \<open>ch\<close> be the chunk being drained: the internal buffer if it is not empty,
  else the chunk at the head of the queue. A read into \<open>p\<close> copies the first
  \<open>n = min (length p) (length ch)\<close> bytes of \<open>ch\<close> to the start of \<open>p\<close>, keeps the
  other bytes of \<open>ch\<close> as the internal buffer, and returns \<open>n\<close>, which is at most the
  length of \<open>p\<close>.
\<close>

theorem Read_copies:
  assumes "\<not> eof c" "sharedMem c \<noteq> 0" "pending c = ch # rest"
    and "n = min (length p) (length ch)"
  shows "Read c p =
           Returns (n, None, take n ch @ drop n p,
                    c\<lparr>buf := drop n ch, data := (data c)\<lparr>items := rest\<rparr>\<rparr>) \<and>
         n \<le> length p \<and> take n ch @ drop n ch = ch"
  using Read_pending [OF assms(1-3), of p] assms(4) by simp

theorem Read_copies_witness:
  "Read conn_pong [0, 0, 0, 0, 0]
     = Returns (5, None, [0, 0, 0, 4, 0x70],
                conn_pong\<lparr>buf := [0x6f, 0x6e, 0x67],
                  data := (data conn_pong)\<lparr>items := []\<rparr>\<rparr>) \<and>
   Read (conn_pong\<lparr>buf := [0x6f, 0x6e, 0x67], data := (data conn_pong)\<lparr>items := []\<rparr>\<rparr>)
       [0, 0, 0, 0, 0]
     = Returns (3, None, [0x6f, 0x6e, 0x67, 0, 0],
                conn_pong\<lparr>buf := [], data := (data conn_pong)\<lparr>items := []\<rparr>\<rparr>)"
proof -
  let ?c = "conn_pong\<lparr>buf := [0x6f, 0x6e, 0x67], data := (data conn_pong)\<lparr>items := []\<rparr>\<rparr>"
  have live: "\<not> eof conn_pong" "sharedMem conn_pong \<noteq> 0"
    by (simp_all add: conn_pong_def conn0_simps)
  have p1: "pending conn_pong = [0, 0, 0, 4, 0x70, 0x6f, 0x6e, 0x67] # []"
    by (simp add: pending_def conn_pong_def conn0_simps pong_def)
  have live2: "\<not> eof ?c" "sharedMem ?c \<noteq> 0"
    by (simp_all add: conn_pong_def conn0_simps)
  have p2: "pending ?c = [0x6f, 0x6e, 0x67] # []"
    by (simp add: pending_def conn_pong_def conn0_simps)
  from Read_copies [OF live p1, of 5 "[0, 0, 0, 0, 0]"]
  have a: "Read conn_pong [0, 0, 0, 0, 0] = Returns (5, None, [0, 0, 0, 4, 0x70], ?c)"
    by simp
  from Read_copies [OF live2 p2, of 3 "[0, 0, 0, 0, 0]"]
  have b: "Read ?c [0, 0, 0, 0, 0]
     = Returns (3, None, [0x6f, 0x6e, 0x67, 0, 0],
                conn_pong\<lparr>buf := [], data := (data conn_pong)\<lparr>items := []\<rparr>\<rparr>)"
    by simp
  from a b show ?thesis by simp
qed

subsection \<open>C7: region names\<close>

text \<open>
  C7. Each connection a process makes is named from the process id and the value that
  the counter returned for it, and among the connections of fewer than \<open>2 ^ 64\<close>
  attempts, the range of the 64-bit counter, no two have the same name, whatever the
  value of the counter at the first attempt and whichever attempts fail.
\<close>

theorem region_names_distinct:
  "length envs < 2 ^ 64 \<Longrightarrow>
   distinct (names_of (connect_all pid uid envs)) \<and>
   (\<forall>n \<in> set (names_of (connect_all pid uid envs)).
      \<exists>k \<in> {1 .. length envs}. n = region_name pid (uid + of_nat k))"
proof (induction envs arbitrary: uid)
  case Nil
  show ?case by simp
next
  case (Cons env envs)
  obtain probe os where env: "env = (probe, os)" by (cases env)
  obtain r uid' where new: "NewPageantConn pid probe os uid = (r, uid')"
    by (cases "NewPageantConn pid probe os uid")
  from Cons.prems have short: "length envs < 2 ^ 64" by simp
  from Cons.IH [OF short] have rest: "distinct (names_of (connect_all pid uid' envs))"
    by blast
  have d: "distinct (names_of (connect_all pid uid (env # envs)))"
  proof (cases r)
    case (Inl e)
    with env new rest show ?thesis by simp
  next
    case (Inr c)
    from NewPageantConn_Inr [OF new [unfolded Inr]] have
      u: "uid' = uid + 1" and m: "mapName c = region_name pid (uid + 1)" by simp_all
    have "mapName c \<notin> set (names_of (connect_all pid uid' envs))"
    proof
      assume "mapName c \<in> set (names_of (connect_all pid uid' envs))"
      from names_of_connect_all [OF this] obtain k where
        k: "1 \<le> k" "k \<le> length envs" "mapName c = region_name pid (uid' + of_nat k)"
        by auto
      from k(3) m have "uid + 1 = uid' + of_nat k" by (auto dest: region_name_inject)
      with u have "uid' + of_nat k = uid'" by simp
      moreover from k short have "k < 2 ^ 64" by simp
      ultimately show False using counter_advanced [OF k(1)] by blast
    qed
    with env new Inr rest show ?thesis by simp
  qed
  moreover have "\<forall>n \<in> set (names_of (connect_all pid uid (env # envs))).
      \<exists>k \<in> {1 .. length (env # envs)}. n = region_name pid (uid + of_nat k)"
    using names_of_connect_all by blast
  ultimately show ?case by blast
qed

theorem region_names_distinct_witness:
  "names_of (connect_all 0x1a2b 0
      [((0x2a01, 0), os_ok 0x10000), ((0x2a01, 0), os_no_mapping), ((0x2a01, 0), os_ok 0x20000)])
     = [''PageantRequest_1a2b_1'', ''PageantRequest_1a2b_3''] \<and>
   distinct (names_of (connect_all 0x1a2b 0
      [((0x2a01, 0), os_ok 0x10000), ((0x2a01, 0), os_no_mapping), ((0x2a01, 0), os_ok 0x20000)]))"
proof -
  let ?envs = "[((0x2a01, 0), os_ok 0x10000), ((0x2a01, 0), os_no_mapping),
                ((0x2a01, 0), os_ok 0x20000)]"
  have "length ?envs < 2 ^ 64" by simp
  from region_names_distinct [OF this, of "0x1a2b" 0]
  have d: "distinct (names_of (connect_all 0x1a2b 0 ?envs))" by blast
  have one: "fmt_x (Suc 0) = ''1''"
    by (subst fmt_x.simps) (simp add: hexdigit_def)
  have x: "fmt_x 1 = ''1''" "fmt_x 3 = ''3''" "fmt_x 6699 = ''1a2b''"
    by (simp_all add: fmt_x.simps one hexdigit_def)
  have "names_of (connect_all 0x1a2b 0 ?envs)
      = [''PageantRequest_1a2b_1'', ''PageantRequest_1a2b_3'']"
    by (simp add: NewPageantConn_def PageantAvailable_def PageantWindow_def establishConn_def
        os_ok_def os_no_mapping_def new_Conn_def region_name_def fmt_x_int_def noError_def
        Let_def one x)
  with d show ?thesis by simp
qed

subsection \<open>C8: Close after a Close that failed\<close>

text \<open>
  C8. When \<^verbatim>\<open>UnmapViewOfFile\<close> (error 487) or \<^verbatim>\<open>CloseHandle\<close> (error 6) fails,
  \<^verbatim>\<open>Close\<close> returns the error after it has closed the channel and leaves the region
  recorded as mapped. On that connection a second \<^verbatim>\<open>Close\<close> panics, closing the
  closed channel, and a \<^verbatim>\<open>Write\<close> panics, sending on it.
\<close>

theorem Close_after_failed_Close_panics:
  "Close (sys_fails 487) sys_ok conn0 = Returns (Some (Errno 487), half_closed0) \<and>
   Close sys_ok sys_ok half_closed0 = Panics CloseOfClosedChannel \<and>
   Close sys_ok (sys_fails 6) conn0 = Returns (Some (Errno 6), half_closed0) \<and>
   Write (agent_answers 1 0 pong) half_closed0 mem0 ping = Panics SendOnClosedChannel"
  apply (intro conjI)
     apply (simp add: Close_def conn0_simps half_closed0_def chan_close_def make_chan_def
      sys_ok_def sys_fails_def Let_def)
    apply (simp add: Close_def conn0_simps half_closed0_def chan_close_def make_chan_def
      sys_ok_def sys_fails_def Let_def)
   apply (simp add: Close_def conn0_simps half_closed0_def chan_close_def make_chan_def
      sys_ok_def sys_fails_def Let_def)
  apply (simp add: Write_def half_closed0_def conn0_simps ping_def agentMaxMsglen_def
      sendMessage_agent_answers BigEndian_pong chan_send_def make_chan_def Let_def)
  done

subsection \<open>C10: Write checks the size before the connection\<close>

text \<open>
  C10. In any state of the connection, connected, closed or never established, a write
  of no bytes returns the empty-message error and a write of more than 8192 bytes the
  oversize-request error; and whenever Write returns the not-connected error, the
  length of its argument is between 1 and 8192.
\<close>

theorem Write_size_checks_first:
  "(length p = 0 \<longrightarrow> Write call c mem p = Returns (0, Some ErrEmptyMessage, c, mem)) \<and>
   (agentMaxMsglen < length p \<longrightarrow>
      Write call c mem p = Returns (0, Some (ErrRequestTooLarge (length p) agentMaxMsglen), c, mem)) \<and>
   (Write call c mem p = Returns (n, Some ErrNotConnected, c', mem') \<longrightarrow>
      0 < length p \<and> length p \<le> agentMaxMsglen)"
proof (intro conjI impI)
  assume "length p = 0"
  then show "Write call c mem p = Returns (0, Some ErrEmptyMessage, c, mem)"
    by (simp add: Write_empty)
next
  assume "agentMaxMsglen < length p"
  then show "Write call c mem p
      = Returns (0, Some (ErrRequestTooLarge (length p) agentMaxMsglen), c, mem)"
    by (rule Write_too_large)
next
  assume nc: "Write call c mem p = Returns (n, Some ErrNotConnected, c', mem')"
  show "0 < length p"
  proof (rule ccontr)
    assume "\<not> 0 < length p"
    then have "p = []" by simp
    with nc show False by (simp add: Write_empty)
  qed
  show "length p \<le> agentMaxMsglen"
  proof (rule ccontr)
    assume "\<not> length p \<le> agentMaxMsglen"
    then have "agentMaxMsglen < length p" by simp
    from Write_too_large [OF this] nc show False by simp
  qed
qed

theorem Write_size_checks_first_witness:
  "Write (agent_answers 1 0 pong) (conn0\<lparr>sharedMem := 0\<rparr>) mem0 []
      = Returns (0, Some ErrEmptyMessage, conn0\<lparr>sharedMem := 0\<rparr>, mem0) \<and>
   Write (agent_answers 1 0 pong) (conn0\<lparr>sharedMem := 0\<rparr>) mem0 (replicate 8193 0)
      = Returns (0, Some (ErrRequestTooLarge 8193 8192), conn0\<lparr>sharedMem := 0\<rparr>, mem0) \<and>
   Write (agent_answers 1 0 pong) (conn0\<lparr>sharedMem := 0\<rparr>) mem0 ping
      = Returns (0, Some ErrNotConnected, conn0\<lparr>sharedMem := 0\<rparr>, mem0) \<and>
   0 < length ping \<and> length ping \<le> agentMaxMsglen"
proof -
  have nc: "Write (agent_answers 1 0 pong) (conn0\<lparr>sharedMem := 0\<rparr>) mem0 ping
      = Returns (0, Some ErrNotConnected, conn0\<lparr>sharedMem := 0\<rparr>, mem0)"
    by (simp add: Write_def ping_def agentMaxMsglen_def)
  from Write_size_checks_first [of "[]" "agent_answers 1 0 pong" "conn0\<lparr>sharedMem := 0\<rparr>" mem0]
  have a: "Write (agent_answers 1 0 pong) (conn0\<lparr>sharedMem := 0\<rparr>) mem0 []
      = Returns (0, Some ErrEmptyMessage, conn0\<lparr>sharedMem := 0\<rparr>, mem0)"
    by simp
  from Write_size_checks_first [of "replicate 8193 0" "agent_answers 1 0 pong"
      "conn0\<lparr>sharedMem := 0\<rparr>" mem0]
  have b: "Write (agent_answers 1 0 pong) (conn0\<lparr>sharedMem := 0\<rparr>) mem0 (replicate 8193 0)
      = Returns (0, Some (ErrRequestTooLarge 8193 8192), conn0\<lparr>sharedMem := 0\<rparr>, mem0)"
    by (simp add: agentMaxMsglen_def)
  from Write_size_checks_first [of ping "agent_answers 1 0 pong" "conn0\<lparr>sharedMem := 0\<rparr>" mem0
      0 "conn0\<lparr>sharedMem := 0\<rparr>" mem0] nc
  have c: "0 < length ping \<and> length ping \<le> agentMaxMsglen" by blast
  from a b nc c show ?thesis by simp
qed

end
